theory Spec2Isabelle
  imports Main "HOL-Library.AList"
begin

section \<open>JavaScript values\<close>

text \<open>
  Objects are compared by reference in JavaScript, so every object value carries the
  reference that identifies it. Motion values, animation-controls handles and arrays are
  opaque to the two modules; a plain object also carries its own enumerable properties
  in enumeration order, because the style bag of a component is iterated. Numbers are
  integers, with NaN apart since \<open>===\<close> is not reflexive on it.
\<close>

type_synonym ref = nat

datatype jsval =
    JUndefined
  | JNull
  | JBool bool
  | JNum int
  | JNaN
  | JStr string
  | JMotionValue ref
  | JControls ref
  | JArr ref
  | JObj ref "(string \<times> jsval) list"

text \<open>Truthiness, as \<open>if (v)\<close>, \<open>v && e\<close> and \<open>v || e\<close> test it.\<close>

fun truthy :: "jsval \<Rightarrow> bool" where
  "truthy JUndefined = False"
| "truthy JNull = False"
| "truthy (JBool b) = b"
| "truthy (JNum n) = (n \<noteq> 0)"
| "truthy JNaN = False"
| "truthy (JStr s) = (s \<noteq> [])"
| "truthy (JMotionValue r) = True"
| "truthy (JControls r) = True"
| "truthy (JArr r) = True"
| "truthy (JObj r fs) = True"

text \<open>\<open>a === b\<close>: objects by reference, NaN equal to nothing.\<close>

definition strictEq :: "jsval \<Rightarrow> jsval \<Rightarrow> bool" where
  "strictEq a b =
     (case (a, b) of
        (JObj r fs, JObj r' fs') \<Rightarrow> r = r'
      | _ \<Rightarrow> a \<noteq> JNaN \<and> a = b)"

text \<open>\<open>Object.is(a, b)\<close>, the comparison of hook dependencies: as \<open>===\<close>, but NaN is NaN.\<close>

definition objectIs :: "jsval \<Rightarrow> jsval \<Rightarrow> bool" where
  "objectIs a b =
     (case (a, b) of
        (JObj r fs, JObj r' fs') \<Rightarrow> r = r'
      | _ \<Rightarrow> a = b)"

text \<open>\<open>o[key]\<close> on the own properties of an object; a missing key reads as undefined.\<close>

definition getProp :: "(string \<times> jsval) list \<Rightarrow> string \<Rightarrow> jsval" where
  "getProp fs key = (case map_of fs key of Some v \<Rightarrow> v | None \<Rightarrow> JUndefined)"

text \<open>
  The own enumerable properties that \<open>for (const key in v)\<close> visits. \<open>MotionProps\<close> types
  \<open>style\<close> as an object; numbers and booleans have no own properties.
\<close>

fun ownProps :: "jsval \<Rightarrow> (string \<times> jsval) list" where
  "ownProps (JObj r fs) = fs"
| "ownProps v = []"

text \<open>
  Modelled from the spec: \<open>isMotionValue\<close> is not among the sources; it is the identity
  check of the binding type: is the value a motion-value instance.
\<close>

fun isMotionValue :: "jsval \<Rightarrow> bool" where
  "isMotionValue (JMotionValue r) = True"
| "isMotionValue v = False"


section \<open>The value reconciler: use-motion-values.ts\<close>

text \<open>
  The recognisers \<open>isTransformProp\<close> and \<open>isTransformOriginProp\<close> are imported from
  \<open>render/dom/utils/transform\<close>; the reconciler takes them as given.
\<close>

record transform_tables =
  isTransformProp :: "string \<Rightarrow> bool"
  isTransformOriginProp :: "string \<Rightarrow> bool"

text \<open>
  Modelled from the spec: the tables of \<open>render/dom/utils/transform\<close> are not among the
  sources. The spec names rotation, scale and the translation axes, and their origin
  counterparts. This instance is used for concrete evaluations only.
\<close>

definition exampleTables :: transform_tables where
  "exampleTables =
     \<lparr> isTransformProp = (\<lambda>k. k \<in> set [''x'', ''y'', ''z'', ''rotate'', ''rotateX'',
          ''rotateY'', ''rotateZ'', ''scale'', ''scaleX'', ''scaleY'', ''scaleZ'']),
       isTransformOriginProp = (\<lambda>k. k \<in> set [''originX'', ''originY'', ''originZ'']) \<rparr>"

text \<open>The calls the visual element and its bindings receive.\<close>

datatype call =
    AddValue string ref
  | RemoveValue string
  | SetValue ref jsval

datatype error = TypeError | ReferenceError

text \<open>
  The state the reconciler works on: the registry and the static-style bag of the
  component's visual element, the calls made so far (oldest first), the snapshot \<open>prev\<close>
  that \<open>useConstant(empty)\<close> keeps across evaluations, and the store of motion values, in
  which reference \<open>r\<close> names the binding whose current value is at position \<open>r\<close>.
\<close>

record state =
  registry :: "string \<rightharpoonup> ref"
  staticStyle :: "(string \<times> jsval) list"
  calls :: "call list"
  prev :: "(string \<times> jsval) list"
  motionValues :: "jsval list"

text \<open>
  Modelled from the spec: the class \<open>VisualElement\<close> is not among the sources. The spec
  gives the registry as a keyed association from names to bindings with the operations
  \<open>addValue(name, binding)\<close>, \<open>removeValue(name)\<close>, \<open>hasValue(name): bool\<close> and
  \<open>getValue(name): binding or undefined\<close>.
\<close>

definition addValue :: "string \<Rightarrow> ref \<Rightarrow> state \<Rightarrow> state" where
  "addValue key r s =
     s\<lparr> registry := (registry s)(key \<mapsto> r), calls := calls s @ [AddValue key r] \<rparr>"

definition removeValue :: "string \<Rightarrow> state \<Rightarrow> state" where
  "removeValue key s =
     s\<lparr> registry := (registry s)(key := None), calls := calls s @ [RemoveValue key] \<rparr>"

definition hasValue :: "string \<Rightarrow> state \<Rightarrow> bool" where
  "hasValue key s = (registry s key \<noteq> None)"

definition getValue :: "string \<Rightarrow> state \<Rightarrow> ref option" where
  "getValue key s = registry s key"

text \<open>
  Modelled from the spec: the motion-value type is not among the sources; it is a mutable
  container for one value with \<open>get\<close>, \<open>set\<close> and an identity. \<open>motionValue(v)\<close> creates a
  binding no existing reference names.
\<close>

definition motionValue :: "jsval \<Rightarrow> state \<Rightarrow> ref \<times> state" where
  "motionValue v s = (length (motionValues s), s\<lparr> motionValues := motionValues s @ [v] \<rparr>)"

definition setMotionValue :: "ref \<Rightarrow> jsval \<Rightarrow> state \<Rightarrow> state" where
  "setMotionValue r v s =
     s\<lparr> motionValues := (motionValues s)[r := v], calls := calls s @ [SetValue r v] \<rparr>"

definition reservedNames :: "string set" where
  "reservedNames = {''dragOriginX'', ''dragOriginY'', ''_dragValueX'', ''_dragValueY''}"

text \<open>\<open>prev[key] = value\<close> and \<open>delete prev[key]\<close> on the snapshot.\<close>

definition setPrev :: "string \<Rightarrow> jsval \<Rightarrow> state \<Rightarrow> state" where
  "setPrev key v s = s\<lparr> prev := AList.update key v (prev s) \<rparr>"

definition deletePrev :: "string \<Rightarrow> state \<Rightarrow> state" where
  "deletePrev key s = s\<lparr> prev := AList.delete key (prev s) \<rparr>"

text \<open>
  One iteration of the loop of \<open>addMotionValues\<close>. \<open>motion!.set(value)\<close> on an absent
  binding is a TypeError.
\<close>

definition addMotionValue :: "transform_tables \<Rightarrow> bool \<Rightarrow> string \<times> jsval \<Rightarrow> state \<Rightarrow> error + state" where
  "addMotionValue T isStyle kv s =
     (case kv of (key, value) \<Rightarrow>
        (case value of
           JMotionValue r \<Rightarrow>
             if key \<notin> reservedNames then Inr (setPrev key value (addValue key r s))
             else Inr s
         | _ \<Rightarrow>
             if isTransformProp T key \<or> isTransformOriginProp T key then
               if \<not> hasValue key s then
                 (case motionValue value s of
                    (r, s') \<Rightarrow> Inr (setPrev key value (addValue key r s')))
               else if \<not> strictEq value (getProp (prev s) key) then
                 (case getValue key s of
                    None \<Rightarrow> Inl TypeError
                  | Some motion \<Rightarrow> Inr (setPrev key value (setMotionValue motion value s)))
               else Inr (setPrev key value s)
             else if isStyle then
               Inr (s\<lparr> staticStyle := AList.update key value (staticStyle s) \<rparr>)
             else Inr s))"

fun addLoop :: "transform_tables \<Rightarrow> bool \<Rightarrow> (string \<times> jsval) list \<Rightarrow> state \<Rightarrow> error + state" where
  "addLoop T isStyle [] s = Inr s"
| "addLoop T isStyle (kv # kvs) s =
     (case addMotionValue T isStyle kv s of
        Inl e \<Rightarrow> Inl e
      | Inr s' \<Rightarrow> addLoop T isStyle kvs s')"

definition addMotionValues :: "transform_tables \<Rightarrow> (string \<times> jsval) list \<Rightarrow> bool \<Rightarrow> state \<Rightarrow> error + state" where
  "addMotionValues T source isStyle s =
     addLoop T isStyle source (if isStyle then s\<lparr> staticStyle := [] \<rparr> else s)"

text \<open>
  The removal loop of \<open>useMotionValues\<close>, over the keys the snapshot had when the loop
  began.
\<close>

fun removeLoop :: "(string \<times> jsval) list \<Rightarrow> string list \<Rightarrow> state \<Rightarrow> state" where
  "removeLoop props [] s = s"
| "removeLoop props (key # keys) s =
     (let propIsValue = isMotionValue (getProp props key);
          styleIsValue = (truthy (getProp props ''style'') \<and>
                          isMotionValue (getProp (ownProps (getProp props ''style'')) key))
      in removeLoop props keys
           (if \<not> propIsValue \<and> \<not> styleIsValue then deletePrev key (removeValue key s)
            else s))"

definition useMotionValues :: "transform_tables \<Rightarrow> (string \<times> jsval) list \<Rightarrow> state \<Rightarrow> error + state" where
  "useMotionValues T props s =
     (case addMotionValues T props False (removeLoop props (map fst (prev s)) s) of
        Inl e \<Rightarrow> Inl e
      | Inr s' \<Rightarrow>
          if truthy (getProp props ''style'')
          then addMotionValues T (ownProps (getProp props ''style'')) True s'
          else Inr s')"

text \<open>A component before its first evaluation: nothing registered, an empty snapshot.\<close>

definition freshState :: state where
  "freshState =
     \<lparr> registry = Map.empty, staticStyle = [], calls = [], prev = [], motionValues = [] \<rparr>"


text \<open>
  The evaluations of one component in a row, each on the state the one before left; an
  evaluation that throws ends the row.
\<close>

fun runPasses :: "transform_tables \<Rightarrow> (string \<times> jsval) list list \<Rightarrow> state \<Rightarrow> error + state" where
  "runPasses T [] s = Inr s"
| "runPasses T (props # rest) s =
     (case useMotionValues T props s of
        Inl e \<Rightarrow> Inl e
      | Inr s' \<Rightarrow> runPasses T rest s')"


text \<open>
  The flag \<open>foundMotionValue\<close> at the end of an iteration of \<open>addMotionValues\<close>: the
  iteration records the key in the snapshot exactly when the flag is set.
\<close>

definition foundMotionValue :: "transform_tables \<Rightarrow> string \<Rightarrow> jsval \<Rightarrow> bool" where
  "foundMotionValue T key v =
     (case v of
        JMotionValue r \<Rightarrow> key \<notin> reservedNames
      | _ \<Rightarrow> isTransformProp T key \<or> isTransformOriginProp T key)"


text \<open>
  The test of the removal loop: a key of the snapshot is kept when \<open>propIsValue\<close> or
  \<open>styleIsValue\<close> holds for it.
\<close>

definition declaresValue :: "(string \<times> jsval) list \<Rightarrow> string \<Rightarrow> bool" where
  "declaresValue props key =
     (isMotionValue (getProp props key) \<or>
      (truthy (getProp props ''style'') \<and>
       isMotionValue (getProp (ownProps (getProp props ''style'')) key)))"

text \<open>
  The bindings a source supplies under names that are not reserved, in the order of the
  source, and the sources in which no raw value stands under a transform name. For such
  a source the addition loop registers exactly these bindings.
\<close>

definition registered :: "(string \<times> jsval) list \<Rightarrow> (string \<times> ref) list" where
  "registered source =
     List.map_filter
       (\<lambda>(k, v). case v of
                   JMotionValue r \<Rightarrow> if k \<in> reservedNames then None else Some (k, r)
                 | _ \<Rightarrow> None)
       source"

definition rawTransformFree :: "transform_tables \<Rightarrow> (string \<times> jsval) list \<Rightarrow> bool" where
  "rawTransformFree T source =
     (\<forall>(k, v) \<in> set source.
        isMotionValue v \<or> \<not> (isTransformProp T k \<or> isTransformOriginProp T k))"




section \<open>The context propagator: MotionContext.ts\<close>

text \<open>
  Modelled from the spec: the declaration of \<open>MotionProps\<close> is not among the sources.
  These are the props \<open>useMotionContext\<close> destructures: \<open>initial\<close>, \<open>animate\<close>,
  \<open>whileTap\<close> and \<open>whileHover\<close> are unions the function tells apart at run time and
  stay JavaScript values; \<open>variants\<close> is an object when declared and \<open>layoutId\<close> a
  string when declared.
\<close>

record MotionProps =
  initialProp :: jsval
  animateProp :: jsval
  variantsProp :: "ref option"
  whileTapProp :: jsval
  whileHoverProp :: jsval
  layoutIdProp :: "string option"

text \<open>
  \<open>MotionContextProps\<close>, with the fields the function gives a value: objects by their
  references, absent optional fields as undefined or \<open>None\<close>. The field \<open>values\<close> is
  \<open>valuesField\<close> here; \<open>visualElement\<close>, which the function never sets, is left out.
\<close>

record MotionContextProps =
  controls :: "ref option"
  valuesField :: jsval
  initial :: jsval
  animate :: jsval
  static :: "bool option"
  hasMounted :: "ref option"
  presenceId :: jsval
  layoutDelta :: "ref option"
  layoutDeltas :: "ref list option"
  layoutProgress :: "ref option"
  isReducedMotion :: jsval
  layoutDepth :: int
  isPresenceRoot :: "bool option"

text \<open>The default of \<open>React.createContext\<close>: what a component without a motion parent reads.\<close>

definition MotionContext :: MotionContextProps where
  "MotionContext =
     \<lparr> controls = None, valuesField = JUndefined, initial = JUndefined,
       animate = JUndefined, static = Some False,
       hasMounted = None, presenceId = JUndefined, layoutDelta = None, layoutDeltas = None,
       layoutProgress = None, isReducedMotion = JUndefined, layoutDepth = - 1,
       isPresenceRoot = None \<rparr>"

text \<open>
  Modelled from the spec: \<open>PresenceContext\<close> is not among the sources; the propagator reads
  an id and an optional initial-value override from the ambient presence scope, if any.
\<close>

record PresenceContextProps =
  presence_id :: jsval
  presence_initial :: jsval

fun isVariantLabel :: "jsval \<Rightarrow> bool" where
  "isVariantLabel (JStr s) = True"
| "isVariantLabel (JArr r) = True"
| "isVariantLabel v = False"

fun isAnimationControls :: "jsval \<Rightarrow> bool" where
  "isAnimationControls (JControls r) = True"
| "isAnimationControls v = False"

text \<open>\<open>typeof v === "boolean"\<close>.\<close>

fun isBoolean :: "jsval \<Rightarrow> bool" where
  "isBoolean (JBool b) = True"
| "isBoolean v = False"

text \<open>\<open>presenceContext?.id\<close>.\<close>

definition presenceIdOf :: "PresenceContextProps option \<Rightarrow> jsval" where
  "presenceIdOf presenceContext =
     (case presenceContext of None \<Rightarrow> JUndefined | Some p \<Rightarrow> presence_id p)"

text \<open>The value of \<open>initial\<close> after the override of lines 68 to 70.\<close>

definition effectiveInitial :: "PresenceContextProps option \<Rightarrow> MotionProps \<Rightarrow> jsval" where
  "effectiveInitial presenceContext props =
     (case presenceContext of
        None \<Rightarrow> initialProp props
      | Some p \<Rightarrow>
          if presence_initial p \<noteq> JUndefined then presence_initial p else initialProp props)"

definition initialState :: "PresenceContextProps option \<Rightarrow> MotionProps \<Rightarrow> jsval" where
  "initialState presenceContext props =
     (let initial' = effectiveInitial presenceContext props in
      if initial' = JBool False \<and> \<not> isAnimationControls (animateProp props)
      then animateProp props
      else if \<not> isBoolean initial' then initial'
      else JUndefined)"

definition shouldPropagateControls :: "MotionProps \<Rightarrow> bool" where
  "shouldPropagateControls props =
     (variantsProp props \<noteq> None \<or>
      isVariantLabel (animateProp props) \<or>
      isVariantLabel (whileTapProp props) \<or>
      isVariantLabel (whileHoverProp props) \<or>
      isAnimationControls (animateProp props))"

definition targetInitial :: "MotionContextProps \<Rightarrow> PresenceContextProps option \<Rightarrow> MotionProps \<Rightarrow> jsval" where
  "targetInitial parentContext presenceContext props =
     (if isVariantLabel (initialState presenceContext props)
      then initialState presenceContext props
      else initial parentContext)"

definition targetAnimate :: "MotionContextProps \<Rightarrow> MotionProps \<Rightarrow> jsval" where
  "targetAnimate parentContext props =
     (if isVariantLabel (animateProp props) then animateProp props
      else animate parentContext)"

definition initialDependency :: "MotionContextProps \<Rightarrow> bool \<Rightarrow> PresenceContextProps option \<Rightarrow> MotionProps \<Rightarrow> jsval" where
  "initialDependency parentContext isStatic presenceContext props =
     (if isStatic then targetInitial parentContext presenceContext props else JNull)"

definition animateDependency :: "MotionContextProps \<Rightarrow> MotionProps \<Rightarrow> jsval" where
  "animateDependency parentContext props =
     (if shouldPropagateControls props \<and> isVariantLabel (targetAnimate parentContext props)
      then targetAnimate parentContext props
      else JNull)"

definition layoutIdValue :: "MotionProps \<Rightarrow> jsval" where
  "layoutIdValue props = (case layoutIdProp props of None \<Rightarrow> JUndefined | Some s \<Rightarrow> JStr s)"

text \<open>The dependency list of \<open>useMemo\<close>, lines 153 to 160.\<close>

definition memoDeps :: "MotionContextProps \<Rightarrow> bool \<Rightarrow> PresenceContextProps option \<Rightarrow> MotionProps \<Rightarrow> jsval list" where
  "memoDeps parentContext isStatic presenceContext props =
     [ initialDependency parentContext isStatic presenceContext props,
       animateDependency parentContext props,
       isReducedMotion parentContext,
       animateProp props,
       layoutIdValue props,
       presenceIdOf presenceContext ]"

text \<open>
  What persists of one component between evaluations: the cells of \<open>useRef\<close>,
  \<open>useConstant\<close>, \<open>useMotionValue\<close> and \<open>useMemo\<close> in the order of their calls, the flag of
  \<open>useInitialOrEveryRender\<close>, and the next unused object reference. A cell is \<open>None\<close>
  before the first evaluation. The memo cell keeps the dependency list it was computed
  for and the object: its reference and its fields.
\<close>

record hooks =
  hasMountedCell :: "ref option"
  layoutDeltaCell :: "ref option"
  layoutDeltasCell :: "ref list option"
  layoutProgressCell :: "ref option"
  memoCell :: "(jsval list \<times> ref \<times> MotionContextProps) option"
  isInitialRender :: bool
  nextRef :: ref

definition unmounted :: hooks where
  "unmounted =
     \<lparr> hasMountedCell = None, layoutDeltaCell = None, layoutDeltasCell = None,
       layoutProgressCell = None, memoCell = None, isInitialRender = True, nextRef = 0 \<rparr>"

text \<open>
  Modelled from the spec: \<open>useConstant\<close> and \<open>useMotionValue\<close> are not among the sources.
  With \<open>useRef\<close> they are the host's persistent value: the object is created on the first
  evaluation and the same one is returned afterwards.
\<close>

definition createOnce :: "ref option \<Rightarrow> ref \<Rightarrow> ref \<times> ref" where
  "createOnce cell next = (case cell of Some r \<Rightarrow> (r, next) | None \<Rightarrow> (next, Suc next))"

text \<open>
  Line 139 reads the identifier \<open>values\<close>. The module declares it nowhere: it is no
  import, no parameter and no local of \<open>useMotionContext\<close>. Reading it throws a
  ReferenceError.
\<close>

definition valuesIdentifier :: "error + jsval" where
  "valuesIdentifier = Inl ReferenceError"

text \<open>
  The factory of \<open>useMemo\<close>, lines 133 to 152: it builds the object, or throws when a
  property value cannot be read.
\<close>

definition newContext :: "MotionContextProps \<Rightarrow> ref \<Rightarrow> PresenceContextProps option \<Rightarrow> MotionProps \<Rightarrow> ref \<Rightarrow> ref \<Rightarrow> ref list \<Rightarrow> ref \<Rightarrow> error + MotionContextProps" where
  "newContext parentContext controls' presenceContext props hasMounted' layoutDelta' layoutDeltas' layoutProgress' =
     (case valuesIdentifier of
        Inl e \<Rightarrow> Inl e
      | Inr values' \<Rightarrow>
          Inr \<lparr> controls = (if shouldPropagateControls props then Some controls'
                            else controls parentContext),
                valuesField = values',
                initial = targetInitial parentContext presenceContext props,
                animate = targetAnimate parentContext props,
                static = None,
                hasMounted = Some hasMounted',
                presenceId = presenceIdOf presenceContext,
                layoutDelta = Some layoutDelta',
                layoutDeltas = Some layoutDeltas',
                layoutProgress = Some layoutProgress',
                isReducedMotion = isReducedMotion parentContext,
                layoutDepth = (if truthy (animateProp props) \<or> layoutIdValue props \<noteq> JUndefined
                               then layoutDepth parentContext + 1
                               else layoutDepth parentContext),
                isPresenceRoot =
                  Some (\<not> strictEq (presenceId parentContext) (presenceIdOf presenceContext)) \<rparr>)"

text \<open>\<open>areHookInputsEqual\<close>: the dependency lists agree position by position under \<open>Object.is\<close>.\<close>

definition depsEqual :: "jsval list \<Rightarrow> jsval list \<Rightarrow> bool" where
  "depsEqual nextDeps prevDeps = list_all2 objectIs nextDeps prevDeps"

text \<open>
  What one evaluation gives back: the context object (its reference and its fields when
  the function returns), the argument of \<open>controls.apply\<close> if it was called, and the
  cells for the next evaluation.
\<close>

record evaluation =
  contextRef :: ref
  contextFields :: MotionContextProps
  applied :: "jsval option"
  hooksAfter :: hooks

text \<open>
  Modelled from the spec: \<open>useInitialOrEveryRender(callback, isInitialOnly)\<close> is not among
  the sources; the callback runs on every evaluation, or on the first one only when
  \<open>isInitialOnly\<close> holds. The callback of lines 168 to 171 applies
  \<open>initialState || parentContext.initial\<close> when that is truthy.
\<close>

definition initialToApply :: "MotionContextProps \<Rightarrow> PresenceContextProps option \<Rightarrow> MotionProps \<Rightarrow> jsval" where
  "initialToApply parentContext presenceContext props =
     (if truthy (initialState presenceContext props) then initialState presenceContext props
      else initial parentContext)"

definition useInitialOrEveryRender :: "jsval \<Rightarrow> bool \<Rightarrow> bool \<Rightarrow> jsval option" where
  "useInitialOrEveryRender toApply isInitialOnly isInitial =
     (if (\<not> isInitialOnly \<or> isInitial) \<and> truthy toApply then Some toApply else None)"

text \<open>
  One evaluation of \<open>useMotionContext\<close>: what it returns, or the error it throws. The
  factory runs when no object is kept or a dependency has changed, and an error it throws
  ends the evaluation before line 164. The parameter \<open>visualElement\<close> is not used by the
  function. The effect of line 173 runs after the commit and writes into the object
  \<open>hasMounted\<close> refers to, not into the context.
\<close>

definition useMotionContext :: "MotionContextProps \<Rightarrow> ref \<Rightarrow> bool \<Rightarrow> MotionProps \<Rightarrow> PresenceContextProps option \<Rightarrow> hooks \<Rightarrow> error + evaluation" where
  "useMotionContext parentContext controls' isStatic props presenceContext h =
     (case createOnce (hasMountedCell h) (nextRef h) of (hasMounted', n1) \<Rightarrow>
      case createOnce (layoutDeltaCell h) n1 of (layoutDelta', n2) \<Rightarrow>
      let layoutDeltas' =
            (case layoutDeltasCell h of
               Some ds \<Rightarrow> ds
             | None \<Rightarrow> (case layoutDeltas parentContext of None \<Rightarrow> [] | Some ds \<Rightarrow> ds) @ [layoutDelta'])
      in
      case createOnce (layoutProgressCell h) n2 of (layoutProgress', n3) \<Rightarrow>
      let deps = memoDeps parentContext isStatic presenceContext props;
          reuse = (case memoCell h of
                     None \<Rightarrow> None
                   | Some (prevDeps, obj) \<Rightarrow> if depsEqual deps prevDeps then Some (prevDeps, obj) else None)
      in
      case (case reuse of
              Some m \<Rightarrow> Inr (m, n3)
            | None \<Rightarrow>
                (case newContext parentContext controls' presenceContext props
                        hasMounted' layoutDelta' layoutDeltas' layoutProgress' of
                   Inl e \<Rightarrow> Inl e
                 | Inr c \<Rightarrow> Inr ((deps, n3, c), Suc n3))) of
        Inl e \<Rightarrow> Inl e
      | Inr ((deps', r, c), n4) \<Rightarrow>
          Inr \<lparr> contextRef = r,
                contextFields = c\<lparr> static := Some isStatic \<rparr>,
                applied = useInitialOrEveryRender
                            (initialToApply parentContext presenceContext props)
                            (\<not> isStatic) (isInitialRender h),
                hooksAfter =
                  \<lparr> hasMountedCell = Some hasMounted',
                    layoutDeltaCell = Some layoutDelta',
                    layoutDeltasCell = Some layoutDeltas',
                    layoutProgressCell = Some layoutProgress',
                    memoCell = Some (deps', r, c\<lparr> static := Some isStatic \<rparr>),
                    isInitialRender = False,
                    nextRef = n4 \<rparr> \<rparr>)"

text \<open>
  Whether an evaluation runs the factory of \<open>useMemo\<close>: on the first evaluation, and when
  a dependency differs from the one the kept object was computed for.
\<close>

definition recomputes :: "MotionContextProps \<Rightarrow> bool \<Rightarrow> MotionProps \<Rightarrow> PresenceContextProps option \<Rightarrow> hooks \<Rightarrow> bool" where
  "recomputes parentContext isStatic props presenceContext h =
     (case memoCell h of
        None \<Rightarrow> True
      | Some (prevDeps, obj) \<Rightarrow>
          \<not> depsEqual (memoDeps parentContext isStatic presenceContext props) prevDeps)"

text \<open>
  The resolved initial state in the words of the specification, for comparison with
  \<open>initialState\<close>: an override, when the presence scope defines one, replaces the
  prop-level \<open>initial\<close>; a literal false gives the \<open>animate\<close> value unless that is a
  controls handle; a value that is not a boolean is used directly; anything else gives
  undefined.
\<close>

definition resolvedInitialSpec :: "jsval option \<Rightarrow> jsval \<Rightarrow> jsval \<Rightarrow> jsval" where
  "resolvedInitialSpec override initial' animate' =
     (case (case override of Some v \<Rightarrow> v | None \<Rightarrow> initial') of
        JBool False \<Rightarrow> (case animate' of JControls r \<Rightarrow> JUndefined | _ \<Rightarrow> animate')
      | JBool True \<Rightarrow> JUndefined
      | i \<Rightarrow> i)"


section \<open>Properties of the value reconciler\<close>

subsection \<open>The reconciler returns\<close>


lemma addMotionValue_returns: "\<exists>s'. addMotionValue T isStyle kv s = Inr s'"
  by (cases kv; cases "snd kv")
     (auto simp: addMotionValue_def hasValue_def getValue_def motionValue_def split: option.splits)

lemma addLoop_returns: "\<exists>s'. addLoop T isStyle kvs s = Inr s'"
proof (induction kvs arbitrary: s)
  case Nil
  show ?case by simp
next
  case (Cons kv kvs)
  obtain s1 where "addMotionValue T isStyle kv s = Inr s1"
    using addMotionValue_returns by blast
  with Cons.IH [of s1] show ?case by simp
qed

lemma addMotionValues_returns: "\<exists>s'. addMotionValues T source isStyle s = Inr s'"
  by (simp add: addMotionValues_def addLoop_returns)

lemma useMotionValues_returns: "\<exists>s'. useMotionValues T props s = Inr s'"
proof -
  obtain s1 where s1: "addMotionValues T props False (removeLoop props (map fst (prev s)) s) = Inr s1"
    using addMotionValues_returns by blast
  obtain s2 where "addMotionValues T (ownProps (getProp props ''style'')) True s1 = Inr s2"
    using addMotionValues_returns by blast
  with s1 show ?thesis by (simp add: useMotionValues_def)
qed

text \<open>
  What every iteration keeps, the loops keep; the rules below carry a property through the
  removal loop, the addition loop and a whole evaluation.
\<close>

lemma addLoop_preserves:
  assumes "addLoop T isStyle kvs s = Inr s'" and "P s"
    and "\<And>kv t t'. kv \<in> set kvs \<Longrightarrow> P t \<Longrightarrow> addMotionValue T isStyle kv t = Inr t' \<Longrightarrow> P t'"
  shows "P s'"
  using assms
proof (induction kvs arbitrary: s)
  case Nil
  then show ?case by simp
next
  case (Cons kv kvs)
  obtain s1 where s1: "addMotionValue T isStyle kv s = Inr s1"
    using addMotionValue_returns by blast
  have "addLoop T isStyle kvs s1 = Inr s'" using Cons.prems(1) s1 by simp
  moreover have "P s1" using Cons.prems(3) [of kv s s1] Cons.prems(2) s1 by simp
  moreover have "\<And>kv' t t'. kv' \<in> set kvs \<Longrightarrow> P t \<Longrightarrow> addMotionValue T isStyle kv' t = Inr t' \<Longrightarrow> P t'"
    using Cons.prems(3) by (meson list.set_intros(2))
  ultimately show ?case by (rule Cons.IH [of s1])
qed

lemma removeLoop_preserves:
  assumes "P s" and "\<And>key t. key \<in> set keys \<Longrightarrow> P t \<Longrightarrow> P (deletePrev key (removeValue key t))"
  shows "P (removeLoop props keys s)"
  using assms
  by (induction keys arbitrary: s) (simp_all add: Let_def)

lemma useMotionValues_preserves:
  assumes run: "useMotionValues T props s = Inr s'" and "P s"
    and rem: "\<And>key t. P t \<Longrightarrow> P (deletePrev key (removeValue key t))"
    and top: "\<And>kv t t'. kv \<in> set props \<Longrightarrow> P t \<Longrightarrow> addMotionValue T False kv t = Inr t' \<Longrightarrow> P t'"
    and reset: "\<And>t. P t \<Longrightarrow> P (t\<lparr> staticStyle := [] \<rparr>)"
    and sty: "\<And>kv t t'. kv \<in> set (ownProps (getProp props ''style'')) \<Longrightarrow> P t \<Longrightarrow>
                addMotionValue T True kv t = Inr t' \<Longrightarrow> P t'"
  shows "P s'"
proof -
  let ?s0 = "removeLoop props (map fst (prev s)) s"
  have p0: "P ?s0" using assms(2) rem by (rule removeLoop_preserves)
  obtain s1 where s1: "addLoop T False props ?s0 = Inr s1"
    using addLoop_returns by blast
  have p1: "P s1" using s1 p0 top by (rule addLoop_preserves)
  show ?thesis
  proof (cases "truthy (getProp props ''style'')")
    case False
    with run s1 have "s' = s1" by (simp add: useMotionValues_def addMotionValues_def)
    with p1 show ?thesis by simp
  next
    case True
    with run s1 have "addLoop T True (ownProps (getProp props ''style'')) (s1\<lparr> staticStyle := [] \<rparr>) = Inr s'"
      by (simp add: useMotionValues_def addMotionValues_def)
    then show ?thesis using reset [OF p1] sty by (rule addLoop_preserves)
  qed
qed

lemma addMotionValue_cases [consumes 1, case_names bound reserved created updated unchanged style ignored]:
  assumes "addMotionValue T isStyle (key, v) s = Inr s'"
  obtains
    r where "v = JMotionValue r" and "key \<notin> reservedNames"
      and "s' = setPrev key v (addValue key r s)"
  | r where "v = JMotionValue r" and "key \<in> reservedNames" and "s' = s"
  | "\<not> isMotionValue v" and "isTransformProp T key \<or> isTransformOriginProp T key"
      and "registry s key = None"
      and "s' = setPrev key v (addValue key (length (motionValues s))
                   (s\<lparr> motionValues := motionValues s @ [v] \<rparr>))"
  | m where "\<not> isMotionValue v" and "isTransformProp T key \<or> isTransformOriginProp T key"
      and "registry s key = Some m" and "\<not> strictEq v (getProp (prev s) key)"
      and "s' = setPrev key v (setMotionValue m v s)"
  | m where "\<not> isMotionValue v" and "isTransformProp T key \<or> isTransformOriginProp T key"
      and "registry s key = Some m" and "strictEq v (getProp (prev s) key)"
      and "s' = setPrev key v s"
  | "\<not> isMotionValue v" and "\<not> (isTransformProp T key \<or> isTransformOriginProp T key)"
      and "isStyle" and "s' = s\<lparr> staticStyle := AList.update key v (staticStyle s) \<rparr>"
  | "\<not> isMotionValue v" and "\<not> (isTransformProp T key \<or> isTransformOriginProp T key)"
      and "\<not> isStyle" and "s' = s"
proof (cases "isMotionValue v")
  case True
  then obtain r where "v = JMotionValue r" by (cases v) simp_all
  with assms that(1,2) show ?thesis
    by (cases "key \<in> reservedNames") (simp_all add: addMotionValue_def)
next
  case mv: False
  then have other: "(case v of JMotionValue r \<Rightarrow> a r | _ \<Rightarrow> b) = b" for a :: "ref \<Rightarrow> error + state" and b
    by (cases v) simp_all
  show ?thesis
  proof (cases "isTransformProp T key \<or> isTransformOriginProp T key")
    case False
    with assms mv that(6,7) show ?thesis
      by (cases isStyle) (simp_all add: addMotionValue_def other)
  next
    case tr: True
    show ?thesis
    proof (cases "registry s key")
      case None
      with assms mv tr that(3) show ?thesis
        by (simp add: addMotionValue_def other hasValue_def motionValue_def)
    next
      case (Some m)
      with assms mv tr that(4,5) show ?thesis
        by (cases "strictEq v (getProp (prev s) key)")
           (simp_all add: addMotionValue_def other hasValue_def getValue_def)
    qed
  qed
qed

subsection \<open>The snapshot invariant\<close>

lemma keys_iff: "k \<in> fst ` set al \<longleftrightarrow> map_of al k \<noteq> None"
  by (simp add: map_of_eq_None_iff)




lemma prev_simps:
  "map_of (prev (setPrev key v s)) = (map_of (prev s))(key \<mapsto> v)"
  "map_of (prev (deletePrev key s)) = (map_of (prev s))(key := None)"
  "prev (addValue key r s) = prev s"
  "prev (removeValue key s) = prev s"
  "prev (setMotionValue m v s) = prev s"
  by (simp_all add: setPrev_def deletePrev_def addValue_def removeValue_def setMotionValue_def
        update_conv' delete_conv')

lemma registry_simps:
  "registry (setPrev key v s) = registry s"
  "registry (deletePrev key s) = registry s"
  "registry (addValue key r s) = (registry s)(key \<mapsto> r)"
  "registry (removeValue key s) = (registry s)(key := None)"
  "registry (setMotionValue m v s) = registry s"
  by (simp_all add: setPrev_def deletePrev_def addValue_def removeValue_def setMotionValue_def)





lemma foundMotionValue_cases:
  "foundMotionValue T key v \<longleftrightarrow>
     (\<exists>r. v = JMotionValue r \<and> key \<notin> reservedNames) \<or>
     (\<not> isMotionValue v \<and> (isTransformProp T key \<or> isTransformOriginProp T key))"
  by (cases v) (simp_all add: foundMotionValue_def)








subsection \<open>The calls of an evaluation\<close>

lemma calls_simps:
  "calls (setPrev key v s) = calls s"
  "calls (deletePrev key s) = calls s"
  "calls (addValue key r s) = calls s @ [AddValue key r]"
  "calls (removeValue key s) = calls s @ [RemoveValue key]"
  "calls (setMotionValue m v s) = calls s @ [SetValue m v]"
  by (simp_all add: setPrev_def deletePrev_def addValue_def removeValue_def setMotionValue_def)

text \<open>
  The calls of an evaluation that started with the calls \<open>cs0\<close>: the new ones follow the
  old ones, and each new \<open>addValue\<close> comes from an entry of \<open>source\<close> whose flag is set.
\<close>

lemma add_calls:
  assumes "addMotionValue T isStyle (key, v) s = Inr s'"
  shows "\<exists>cs. calls s' = calls s @ cs \<and>
           (\<forall>k r. AddValue k r \<in> set cs \<longrightarrow> k = key \<and> foundMotionValue T key v \<and>
                    (isMotionValue v \<longrightarrow> v = JMotionValue r))"
  using assms
  by (cases rule: addMotionValue_cases) (auto simp: calls_simps foundMotionValue_cases)

lemma adds_from_step:
  assumes step: "addMotionValue T isStyle kv t = Inr t'" and kv: "kv \<in> set source"
    and old: "\<exists>cs. calls t = cs0 @ cs \<and>
           (\<forall>k r. AddValue k r \<in> set cs \<longrightarrow>
              (\<exists>v. (k, v) \<in> set source \<and> foundMotionValue T k v \<and>
                   (isMotionValue v \<longrightarrow> v = JMotionValue r)))"
  shows "\<exists>cs. calls t' = cs0 @ cs \<and>
           (\<forall>k r. AddValue k r \<in> set cs \<longrightarrow>
              (\<exists>v. (k, v) \<in> set source \<and> foundMotionValue T k v \<and>
                   (isMotionValue v \<longrightarrow> v = JMotionValue r)))"
proof -
  obtain key v where eq: "kv = (key, v)" by (cases kv)
  from old obtain cs where cs: "calls t = cs0 @ cs"
    and csP: "\<And>k r. AddValue k r \<in> set cs \<Longrightarrow>
              \<exists>v. (k, v) \<in> set source \<and> foundMotionValue T k v \<and>
                   (isMotionValue v \<longrightarrow> v = JMotionValue r)"
    by auto
  from add_calls [OF step [unfolded eq]] obtain ds where ds: "calls t' = calls t @ ds"
    and dsP: "\<And>k r. AddValue k r \<in> set ds \<Longrightarrow> k = key \<and> foundMotionValue T key v \<and>
                    (isMotionValue v \<longrightarrow> v = JMotionValue r)"
    by auto
  have "calls t' = cs0 @ (cs @ ds)" using cs ds by simp
  moreover have "\<exists>v. (k, v) \<in> set source \<and> foundMotionValue T k v \<and>
                   (isMotionValue v \<longrightarrow> v = JMotionValue r)"
    if "AddValue k r \<in> set (cs @ ds)" for k r
  proof (cases "AddValue k r \<in> set cs")
    case True
    then show ?thesis by (rule csP)
  next
    case False
    with that have "AddValue k r \<in> set ds" by simp
    from dsP [OF this] kv eq show ?thesis by auto
  qed
  ultimately show ?thesis by (intro exI [of _ "cs @ ds"]) simp
qed

lemma pass_calls:
  assumes "useMotionValues T props s = Inr s'"
  shows "\<exists>cs. calls s' = calls s @ cs \<and>
           (\<forall>k r. AddValue k r \<in> set cs \<longrightarrow>
              (\<exists>v. (k, v) \<in> set (props @ ownProps (getProp props ''style'')) \<and>
                   foundMotionValue T k v \<and> (isMotionValue v \<longrightarrow> v = JMotionValue r)))"
    (is "?P s'")
  using assms
proof (rule useMotionValues_preserves)
  show "?P s" by simp
next
  fix key t
  assume "?P t"
  then obtain cs where cs: "calls t = calls s @ cs"
    and csP: "\<forall>k r. AddValue k r \<in> set cs \<longrightarrow>
              (\<exists>v. (k, v) \<in> set (props @ ownProps (getProp props ''style'')) \<and>
                   foundMotionValue T k v \<and> (isMotionValue v \<longrightarrow> v = JMotionValue r))"
    by auto
  have "calls (deletePrev key (removeValue key t)) = calls s @ (cs @ [RemoveValue key])"
    using cs by (simp add: calls_simps)
  moreover have "\<forall>k r. AddValue k r \<in> set (cs @ [RemoveValue key]) \<longrightarrow>
              (\<exists>v. (k, v) \<in> set (props @ ownProps (getProp props ''style'')) \<and>
                   foundMotionValue T k v \<and> (isMotionValue v \<longrightarrow> v = JMotionValue r))"
    using csP by simp
  ultimately show "?P (deletePrev key (removeValue key t))" by (intro exI conjI)
next
  fix kv t t'
  assume "kv \<in> set props" and "?P t" and "addMotionValue T False kv t = Inr t'"
  then show "?P t'" by (intro adds_from_step [of T False kv t t']) simp_all
next
  fix t
  assume "?P t"
  then show "?P (t\<lparr> staticStyle := [] \<rparr>)" by simp
next
  fix kv t t'
  assume "kv \<in> set (ownProps (getProp props ''style''))" and "?P t"
    and "addMotionValue T True kv t = Inr t'"
  then show "?P t'" by (intro adds_from_step [of T True kv t t']) simp_all
qed

subsection \<open>Snapshot and registry agree\<close>


lemma removeLoop_Cons:
  "removeLoop props (key # keys) s =
     removeLoop props keys
       (if declaresValue props key then s else deletePrev key (removeValue key s))"
  by (simp add: declaresValue_def Let_def)

lemma removeLoop_nothing:
  assumes "\<forall>k \<in> set keys. declaresValue props k"
  shows "removeLoop props keys s = s"
  using assms by (induction keys arbitrary: s) (simp_all add: removeLoop_Cons del: removeLoop.simps(2))

lemma removeLoop_leaves_declared:
  assumes "map_of (prev (removeLoop props keys s)) k \<noteq> None"
  shows "map_of (prev s) k \<noteq> None \<and> (k \<in> set keys \<longrightarrow> declaresValue props k)"
  using assms
proof (induction keys arbitrary: s)
  case Nil
  then show ?case by simp
next
  case (Cons key keys)
  let ?s1 = "if declaresValue props key then s else deletePrev key (removeValue key s)"
  from Cons.prems [unfolded removeLoop_Cons]
  have "map_of (prev (removeLoop props keys ?s1)) k \<noteq> None" .
  from Cons.IH [OF this]
  have s1: "map_of (prev ?s1) k \<noteq> None" and rest: "k \<in> set keys \<longrightarrow> declaresValue props k"
    by simp_all
  have "map_of (prev s) k \<noteq> None"
    using s1 by (cases "declaresValue props key") (simp_all add: prev_simps split: if_splits)
  moreover have "declaresValue props key" if "k = key"
    using s1 that by (cases "declaresValue props key") (simp_all add: prev_simps)
  ultimately show ?case using rest by auto
qed







subsection \<open>Reserved names\<close>

lemma add_registry_elsewhere:
  assumes "addMotionValue T isStyle (key, v) s = Inr s'" and "key \<noteq> k"
  shows "registry s' k = registry s k"
  using assms
  by (cases rule: addMotionValue_cases) (simp_all add: registry_simps)

lemma add_registry_reserved:
  assumes "addMotionValue T isStyle (key, v) s = Inr s'" and "key \<in> reservedNames"
    and "isMotionValue v"
  shows "s' = s"
  using assms
  by (cases rule: addMotionValue_cases) simp_all

lemma pass_registry_reserved:
  assumes run: "useMotionValues T props s = Inr s'"
    and k: "k \<in> reservedNames"
    and top: "\<forall>v. (k, v) \<in> set props \<longrightarrow> isMotionValue v"
    and sty: "\<forall>v. (k, v) \<in> set (ownProps (getProp props ''style'')) \<longrightarrow> isMotionValue v"
    and none: "registry s k = None"
  shows "registry s' k = None"
  using run none
proof (rule useMotionValues_preserves)
  fix key and t :: state
  assume "registry t k = None"
  then show "registry (deletePrev key (removeValue key t)) k = None"
    by (simp add: registry_simps)
next
  fix kv and t t' :: state
  assume kv: "kv \<in> set props" and t: "registry t k = None"
    and step: "addMotionValue T False kv t = Inr t'"
  obtain key v where eq: "kv = (key, v)" by (cases kv)
  show "registry t' k = None"
  proof (cases "key = k")
    case True
    with kv eq top have "isMotionValue v" by simp
    with step eq True k have "t' = t" by (simp add: add_registry_reserved)
    with t show ?thesis by simp
  next
    case False
    with step eq t show ?thesis by (simp add: add_registry_elsewhere)
  qed
next
  fix t :: state
  assume "registry t k = None"
  then show "registry (t\<lparr> staticStyle := [] \<rparr>) k = None" by simp
next
  fix kv and t t' :: state
  assume kv: "kv \<in> set (ownProps (getProp props ''style''))" and t: "registry t k = None"
    and step: "addMotionValue T True kv t = Inr t'"
  obtain key v where eq: "kv = (key, v)" by (cases kv)
  show "registry t' k = None"
  proof (cases "key = k")
    case True
    with kv eq sty have "isMotionValue v" by simp
    with step eq True k have "t' = t" by (simp add: add_registry_reserved)
    with t show ?thesis by simp
  next
    case False
    with step eq t show ?thesis by (simp add: add_registry_elsewhere)
  qed
qed

text \<open>
  C8. When every value supplied under a reserved name, at the top level and in the style
  bag, is a binding, an evaluation makes no \<open>addValue\<close> call for that name, from any
  state, and a registry without an entry for the name stays without one.
\<close>

theorem reserved_names_never_registered:
  assumes k: "k \<in> reservedNames"
    and top: "\<forall>v. (k, v) \<in> set props \<longrightarrow> isMotionValue v"
    and sty: "\<forall>v. (k, v) \<in> set (ownProps (getProp props ''style'')) \<longrightarrow> isMotionValue v"
  shows "\<exists>s' cs. useMotionValues T props s = Inr s' \<and> calls s' = calls s @ cs \<and>
           (\<forall>r. AddValue k r \<notin> set cs) \<and>
           (registry s k = None \<longrightarrow> registry s' k = None)"
proof -
  obtain s' where run: "useMotionValues T props s = Inr s'"
    using useMotionValues_returns by blast
  from pass_calls [OF run] obtain cs where cs: "calls s' = calls s @ cs"
    and csP: "\<And>k r. AddValue k r \<in> set cs \<Longrightarrow>
              \<exists>v. (k, v) \<in> set (props @ ownProps (getProp props ''style'')) \<and>
                   foundMotionValue T k v \<and> (isMotionValue v \<longrightarrow> v = JMotionValue r)"
    by auto
  have "AddValue k r \<notin> set cs" for r
  proof
    assume "AddValue k r \<in> set cs"
    from csP [OF this] obtain v
      where v: "(k, v) \<in> set props \<or> (k, v) \<in> set (ownProps (getProp props ''style''))"
        and found: "foundMotionValue T k v" and mv: "isMotionValue v \<longrightarrow> v = JMotionValue r"
      by auto
    from v top sty have "isMotionValue v" by auto
    with mv have "v = JMotionValue r" by simp
    with found have "k \<notin> reservedNames" by (simp add: foundMotionValue_def)
    with k show False by simp
  qed
  moreover have "registry s k = None \<longrightarrow> registry s' k = None"
    using pass_registry_reserved [OF run k top sty] by simp
  ultimately show ?thesis using run cs by (intro exI [of _ s'] exI [of _ cs]) simp
qed

theorem reserved_names_never_registered_witness:
  "(\<exists>s' cs.
      useMotionValues exampleTables
        [(''dragOriginX'', JMotionValue 0), (''x'', JMotionValue 1),
         (''style'', JObj 0 [(''_dragValueX'', JMotionValue 2), (''dragOriginX'', JMotionValue 3)])]
        (freshState\<lparr> motionValues := [JNum 0, JNum 0, JNum 0, JNum 0] \<rparr>) = Inr s' \<and>
      calls s' = calls (freshState\<lparr> motionValues := [JNum 0, JNum 0, JNum 0, JNum 0] \<rparr>) @ cs \<and>
      (\<forall>r. AddValue ''dragOriginX'' r \<notin> set cs) \<and>
      (registry (freshState\<lparr> motionValues := [JNum 0, JNum 0, JNum 0, JNum 0] \<rparr>) ''dragOriginX'' = None \<longrightarrow> registry s' ''dragOriginX'' = None)) \<and>
   ''dragOriginX'' \<in> reservedNames"
proof -
  let ?props = "[(''dragOriginX'', JMotionValue 0), (''x'', JMotionValue 1),
         (''style'', JObj 0 [(''_dragValueX'', JMotionValue 2), (''dragOriginX'', JMotionValue 3)])]"
  have k: "''dragOriginX'' \<in> reservedNames" by (simp add: reservedNames_def)
  have top: "\<forall>v. (''dragOriginX'', v) \<in> set ?props \<longrightarrow> isMotionValue v" by simp
  have sty: "\<forall>v. (''dragOriginX'', v) \<in> set (ownProps (getProp ?props ''style'')) \<longrightarrow> isMotionValue v"
    by (simp add: getProp_def)
  from reserved_names_never_registered [OF k top sty, of exampleTables "freshState\<lparr> motionValues := [JNum 0, JNum 0, JNum 0, JNum 0] \<rparr>"] k
  show ?thesis by (intro conjI)
qed

subsection \<open>The update branch\<close>

text \<open>
  C9. The registry answers \<open>getValue\<close> with a binding exactly when \<open>hasValue\<close> holds, the
  update branch is entered only after \<open>hasValue\<close>, and so neither one iteration nor a whole
  evaluation ends in the TypeError of a \<open>set\<close> on an absent binding.
\<close>

theorem update_never_on_absent_binding:
  "(hasValue key s \<longleftrightarrow> (\<exists>m. getValue key s = Some m)) \<and>
   (\<forall>e. addMotionValue T isStyle (key, v) s \<noteq> Inl e) \<and>
   (\<forall>e. useMotionValues T props s \<noteq> Inl e)"
proof (intro conjI allI)
  show "hasValue key s \<longleftrightarrow> (\<exists>m. getValue key s = Some m)"
    by (simp add: hasValue_def getValue_def)
next
  fix e
  obtain s' where "addMotionValue T isStyle (key, v) s = Inr s'"
    using addMotionValue_returns by blast
  then show "addMotionValue T isStyle (key, v) s \<noteq> Inl e" by simp
next
  fix e
  obtain s' where "useMotionValues T props s = Inr s'"
    using useMotionValues_returns by blast
  then show "useMotionValues T props s \<noteq> Inl e" by simp
qed

theorem update_never_on_absent_binding_witness:
  "hasValue ''rotate''
     \<lparr> registry = [''rotate'' \<mapsto> 0], staticStyle = [], calls = [], prev = [],
       motionValues = [JNum 0] \<rparr> \<and>
   getValue ''rotate''
     \<lparr> registry = [''rotate'' \<mapsto> 0], staticStyle = [], calls = [], prev = [],
       motionValues = [JNum 0] \<rparr> = Some 0 \<and>
   addMotionValue exampleTables False (''rotate'', JNum 90)
     \<lparr> registry = [''rotate'' \<mapsto> 0], staticStyle = [], calls = [], prev = [],
       motionValues = [JNum 0] \<rparr> \<noteq> Inl TypeError \<and>
   useMotionValues exampleTables [(''rotate'', JNum 90)]
     \<lparr> registry = [''rotate'' \<mapsto> 0], staticStyle = [], calls = [], prev = [],
       motionValues = [JNum 0] \<rparr> =
   Inr \<lparr> registry = [''rotate'' \<mapsto> 0], staticStyle = [], calls = [SetValue 0 (JNum 90)],
         prev = [(''rotate'', JNum 90)], motionValues = [JNum 90] \<rparr>"
  using update_never_on_absent_binding
    [of "''rotate''"
        "\<lparr> registry = [''rotate'' \<mapsto> 0], staticStyle = [], calls = [], prev = [],
           motionValues = [JNum 0] \<rparr>"
        exampleTables False "JNum 90" "[(''rotate'', JNum 90)]"]
  by (simp add: useMotionValues_def addMotionValues_def addMotionValue_def addValue_def
        removeValue_def hasValue_def getValue_def motionValue_def setMotionValue_def
        setPrev_def deletePrev_def getProp_def strictEq_def reservedNames_def exampleTables_def)

subsection \<open>Evaluating twice with the same props\<close>

lemma registered_Nil: "registered [] = []"
  by (simp add: registered_def map_filter_simps)

lemma registered_Cons:
  "registered ((k, v) # kvs) =
     (case v of
        JMotionValue r \<Rightarrow> if k \<in> reservedNames then registered kvs else (k, r) # registered kvs
      | _ \<Rightarrow> registered kvs)"
  by (cases v) (simp_all add: registered_def map_filter_simps)

lemma registered_mem:
  "(k, r) \<in> set (registered kvs) \<longleftrightarrow> (k, JMotionValue r) \<in> set kvs \<and> k \<notin> reservedNames"
proof (induction kvs)
  case Nil
  show ?case by (simp add: registered_Nil)
next
  case (Cons kv kvs)
  obtain key v where kv: "kv = (key, v)" by (cases kv)
  show ?case unfolding kv using Cons.IH
    by (cases v) (auto simp: registered_Cons)
qed

lemma rawTransformFree_Cons:
  "rawTransformFree T ((k, v) # kvs) \<longleftrightarrow>
     (isMotionValue v \<or> \<not> (isTransformProp T k \<or> isTransformOriginProp T k)) \<and>
     rawTransformFree T kvs"
  by (simp add: rawTransformFree_def)

text \<open>What one iteration does when no raw value stands under a transform name.\<close>

lemma add_binding:
  assumes "k \<notin> reservedNames"
  shows "addMotionValue T isStyle (k, JMotionValue r) s =
           Inr (setPrev k (JMotionValue r) (addValue k r s))"
  using assms by (simp add: addMotionValue_def)

lemma add_no_binding:
  assumes "isMotionValue v \<or> \<not> (isTransformProp T k \<or> isTransformOriginProp T k)"
    and "\<not> foundMotionValue T k v"
  shows "addMotionValue T isStyle (k, v) s =
           Inr (if isStyle \<and> \<not> isMotionValue v
                then s\<lparr> staticStyle := AList.update k v (staticStyle s) \<rparr> else s)"
  using assms by (cases v) (simp_all add: addMotionValue_def foundMotionValue_def)

lemma found_without_raw_transform:
  assumes "isMotionValue v \<or> \<not> (isTransformProp T k \<or> isTransformOriginProp T k)"
    and "foundMotionValue T k v"
  obtains r where "v = JMotionValue r" and "k \<notin> reservedNames"
  using assms by (cases v) (simp_all add: foundMotionValue_def)

lemma registered_found:
  "k \<notin> reservedNames \<Longrightarrow>
   registered ((k, JMotionValue r) # kvs) = (k, r) # registered kvs"
  by (simp add: registered_Cons)

lemma registered_not_found:
  "isMotionValue v \<or> \<not> (isTransformProp T k \<or> isTransformOriginProp T k) \<Longrightarrow>
   \<not> foundMotionValue T k v \<Longrightarrow> registered ((k, v) # kvs) = registered kvs"
  by (cases v) (simp_all add: registered_Cons foundMotionValue_def)

lemma writes_Cons: "m ++ map_of (rev ((k, r) # R)) = m(k \<mapsto> r) ++ map_of (rev R)"
  by (rule ext) (simp add: map_add_def split: option.splits)

lemma value_writes_Cons:
  "m ++ (\<lambda>a. map_option JMotionValue (map_of (rev ((k, r) # R)) a)) =
   m(k \<mapsto> JMotionValue r) ++ (\<lambda>a. map_option JMotionValue (map_of (rev R) a))"
  by (rule ext) (simp add: map_add_def split: option.splits)

lemma untouched_simps:
  "motionValues (setPrev key v s) = motionValues s"
  "motionValues (addValue key r s) = motionValues s"
  "staticStyle (setPrev key v s) = staticStyle s"
  "staticStyle (addValue key r s) = staticStyle s"
  by (simp_all add: setPrev_def addValue_def)

lemma addLoop_without_raw_transforms:
  assumes "rawTransformFree T kvs" and "addLoop T isStyle kvs s = Inr s'"
  shows "registry s' = registry s ++ map_of (rev (registered kvs)) \<and>
         map_of (prev s') =
           map_of (prev s) ++ (\<lambda>a. map_option JMotionValue (map_of (rev (registered kvs)) a)) \<and>
         motionValues s' = motionValues s \<and>
         (\<not> isStyle \<longrightarrow> staticStyle s' = staticStyle s)"
  using assms
proof (induction kvs arbitrary: s)
  case Nil
  then show ?case by (simp add: registered_Nil)
next
  case (Cons kv kvs)
  obtain k v where kv: "kv = (k, v)" by (cases kv)
  from Cons.prems(1) have nr: "isMotionValue v \<or> \<not> (isTransformProp T k \<or> isTransformOriginProp T k)"
    and rest: "rawTransformFree T kvs"
    by (simp_all add: kv rawTransformFree_Cons)
  show ?case
  proof (cases "foundMotionValue T k v")
    case True
    with nr obtain r where v: "v = JMotionValue r" and k: "k \<notin> reservedNames"
      by (rule found_without_raw_transform)
    let ?s1 = "setPrev k (JMotionValue r) (addValue k r s)"
    from Cons.prems(2) have "addLoop T isStyle kvs ?s1 = Inr s'"
      by (simp add: kv v add_binding [OF k])
    from Cons.IH [OF rest this]
    have "registry s' = (registry s)(k \<mapsto> r) ++ map_of (rev (registered kvs)) \<and>
          map_of (prev s') = (map_of (prev s))(k \<mapsto> JMotionValue r) ++
             (\<lambda>a. map_option JMotionValue (map_of (rev (registered kvs)) a)) \<and>
          motionValues s' = motionValues s \<and>
          (\<not> isStyle \<longrightarrow> staticStyle s' = staticStyle s)"
      unfolding prev_simps registry_simps untouched_simps .
    then show ?thesis
      unfolding kv v registered_found [OF k] writes_Cons value_writes_Cons .
  next
    case False
    let ?s1 = "if isStyle \<and> \<not> isMotionValue v
               then s\<lparr> staticStyle := AList.update k v (staticStyle s) \<rparr> else s"
    from Cons.prems(2) have "addLoop T isStyle kvs ?s1 = Inr s'"
      by (simp add: kv add_no_binding [OF nr False])
    from Cons.IH [OF rest this]
    have "registry s' = registry s ++ map_of (rev (registered kvs)) \<and>
          map_of (prev s') = map_of (prev s) ++
             (\<lambda>a. map_option JMotionValue (map_of (rev (registered kvs)) a)) \<and>
          motionValues s' = motionValues s \<and>
          (\<not> isStyle \<longrightarrow> staticStyle s' = staticStyle s)"
      by (cases "isStyle \<and> \<not> isMotionValue v") simp_all
    then show ?thesis
      unfolding kv registered_not_found [OF nr False] .
  qed
qed

lemma addLoop_calls_without_raw_transforms:
  assumes "rawTransformFree T kvs" and "addLoop T isStyle kvs s = Inr s'"
  shows "calls s' = calls s @ map (\<lambda>(k, r). AddValue k r) (registered kvs)"
  using assms
proof (induction kvs arbitrary: s)
  case Nil
  then show ?case by (simp add: registered_Nil)
next
  case (Cons kv kvs)
  obtain k v where kv: "kv = (k, v)" by (cases kv)
  from Cons.prems(1) have nr: "isMotionValue v \<or> \<not> (isTransformProp T k \<or> isTransformOriginProp T k)"
    and rest: "rawTransformFree T kvs"
    by (simp_all add: kv rawTransformFree_Cons)
  show ?case
  proof (cases "foundMotionValue T k v")
    case True
    with nr obtain r where v: "v = JMotionValue r" and k: "k \<notin> reservedNames"
      by (rule found_without_raw_transform)
    from Cons.prems(2) have "addLoop T isStyle kvs (setPrev k (JMotionValue r) (addValue k r s)) = Inr s'"
      by (simp add: kv v add_binding [OF k])
    from Cons.IH [OF rest this] show ?thesis
      by (simp add: kv v registered_found [OF k] calls_simps)
  next
    case False
    from Cons.prems(2)
    have "addLoop T isStyle kvs
            (if isStyle \<and> \<not> isMotionValue v
             then s\<lparr> staticStyle := AList.update k v (staticStyle s) \<rparr> else s) = Inr s'"
      by (simp add: kv add_no_binding [OF nr False])
    from Cons.IH [OF rest this] show ?thesis
      by (cases "isStyle \<and> \<not> isMotionValue v")
         (simp_all add: kv registered_not_found [OF nr False])
  qed
qed

lemma addLoop_staticStyle_determined:
  assumes "rawTransformFree T kvs" and "addLoop T True kvs s = Inr s'"
    and "addLoop T True kvs t = Inr t'" and "staticStyle s = staticStyle t"
  shows "staticStyle s' = staticStyle t'"
  using assms
proof (induction kvs arbitrary: s t)
  case Nil
  then show ?case by simp
next
  case (Cons kv kvs)
  obtain k v where kv: "kv = (k, v)" by (cases kv)
  from Cons.prems(1) have nr: "isMotionValue v \<or> \<not> (isTransformProp T k \<or> isTransformOriginProp T k)"
    and rest: "rawTransformFree T kvs"
    by (simp_all add: kv rawTransformFree_Cons)
  show ?case
  proof (cases "foundMotionValue T k v")
    case True
    with nr obtain r where v: "v = JMotionValue r" and k: "k \<notin> reservedNames"
      by (rule found_without_raw_transform)
    from Cons.prems(2) have s1: "addLoop T True kvs (setPrev k (JMotionValue r) (addValue k r s)) = Inr s'"
      by (simp add: kv v add_binding [OF k])
    from Cons.prems(3) have t1: "addLoop T True kvs (setPrev k (JMotionValue r) (addValue k r t)) = Inr t'"
      by (simp add: kv v add_binding [OF k])
    from Cons.prems(4)
    have "staticStyle (setPrev k (JMotionValue r) (addValue k r s)) =
          staticStyle (setPrev k (JMotionValue r) (addValue k r t))"
      by (simp only: untouched_simps)
    with rest s1 t1 show ?thesis by (rule Cons.IH)
  next
    case False
    let ?step = "\<lambda>u. if True \<and> \<not> isMotionValue v
               then u\<lparr> staticStyle := AList.update k v (staticStyle u) \<rparr> else u"
    from Cons.prems(2) have s1: "addLoop T True kvs (?step s) = Inr s'"
      by (simp add: kv add_no_binding [OF nr False])
    from Cons.prems(3) have t1: "addLoop T True kvs (?step t) = Inr t'"
      by (simp add: kv add_no_binding [OF nr False])
    from Cons.prems(4) have "staticStyle (?step s) = staticStyle (?step t)" by simp
    with rest s1 t1 show ?thesis by (rule Cons.IH)
  qed
qed

lemma registered_declared:
  assumes "distinct (map fst kvs)" and "map_of (rev (registered kvs)) k \<noteq> None"
  shows "isMotionValue (getProp kvs k)"
proof -
  from assms(2) obtain r where "map_of (rev (registered kvs)) k = Some r" by auto
  then have "(k, r) \<in> set (registered kvs)" by (auto dest: map_of_SomeD)
  then have "(k, JMotionValue r) \<in> set kvs" by (simp add: registered_mem)
  with assms(1) have "map_of kvs k = Some (JMotionValue r)" by simp
  then show ?thesis by (simp add: getProp_def)
qed

lemma absorb_writes: "(((m ++ a) ++ b) ++ a) ++ b = (m ++ a) ++ b"
  by (rule ext) (simp add: map_add_def split: option.splits)

lemma absorb_write: "(m ++ a) ++ a = m ++ a"
  by (rule ext) (simp add: map_add_def split: option.splits)

lemmas reconciler_eval_defs =
  useMotionValues_def addMotionValues_def addMotionValue_def addValue_def removeValue_def
  hasValue_def getValue_def motionValue_def setMotionValue_def setPrev_def deletePrev_def
  getProp_def strictEq_def reservedNames_def exampleTables_def freshState_def

text \<open>
  C2, as stated, fails. A component that declares the binding \<open>x\<close> is evaluated twice
  with the same props: the second evaluation calls \<open>addValue\<close> for \<open>x\<close> again. And with
  the raw transform value \<open>rotate: 45\<close> declared twice in a row, the second evaluation
  calls \<open>removeValue\<close> and \<open>addValue\<close> and leaves the registry with a binding other than
  the one the first evaluation registered.
\<close>

theorem second_pass_counterexample:
  "useMotionValues exampleTables [(''x'', JMotionValue 0)]
     \<lparr> registry = [''x'' \<mapsto> 0], staticStyle = [], calls = [],
       prev = [(''x'', JMotionValue 0)], motionValues = [JNum 10] \<rparr> =
     Inr \<lparr> registry = [''x'' \<mapsto> 0], staticStyle = [], calls = [AddValue ''x'' 0],
           prev = [(''x'', JMotionValue 0)], motionValues = [JNum 10] \<rparr> \<and>
   useMotionValues exampleTables [(''x'', JMotionValue 0)]
     \<lparr> registry = Map.empty, staticStyle = [], calls = [], prev = [], motionValues = [JNum 10] \<rparr> =
     Inr \<lparr> registry = [''x'' \<mapsto> 0], staticStyle = [], calls = [AddValue ''x'' 0],
           prev = [(''x'', JMotionValue 0)], motionValues = [JNum 10] \<rparr> \<and>
   runPasses exampleTables [[(''rotate'', JNum 45)], [(''rotate'', JNum 45)]] freshState =
     Inr \<lparr> registry = [''rotate'' \<mapsto> 1], staticStyle = [],
           calls = [AddValue ''rotate'' 0, RemoveValue ''rotate'', AddValue ''rotate'' 1],
           prev = [(''rotate'', JNum 45)], motionValues = [JNum 45, JNum 45] \<rparr>"
  by (simp add: reconciler_eval_defs)

text \<open>
  C2, amended. For props in which no raw value stands under a transform name, at the top
  level or in the style bag, a second evaluation with the same props leaves the registry,
  the static-style bag, the snapshot and the values of the bindings as the first one left
  them; its calls are one \<open>addValue\<close> for each declared binding, and no \<open>removeValue\<close> and
  no \<open>set\<close>.
\<close>

theorem second_evaluation_changes_nothing:
  assumes top: "rawTransformFree T props"
    and sty: "rawTransformFree T (ownProps (getProp props ''style''))"
    and dtop: "distinct (map fst props)"
    and dsty: "distinct (map fst (ownProps (getProp props ''style'')))"
    and first: "useMotionValues T props s = Inr s1"
  shows "\<exists>s2. useMotionValues T props s1 = Inr s2 \<and>
           registry s2 = registry s1 \<and> map_of (prev s2) = map_of (prev s1) \<and>
           staticStyle s2 = staticStyle s1 \<and> motionValues s2 = motionValues s1 \<and>
           calls s2 = calls s1 @
             map (\<lambda>(k, r). AddValue k r)
               (registered props @ registered (ownProps (getProp props ''style'')))"
proof -
  let ?style = "ownProps (getProp props ''style'')"
  let ?Wt = "map_of (rev (registered props))"
  let ?Ws = "map_of (rev (registered ?style))"
  let ?Vt = "\<lambda>a. map_option JMotionValue (?Wt a)"
  let ?Vs = "\<lambda>a. map_option JMotionValue (?Ws a)"
  let ?s0 = "removeLoop props (map fst (prev s)) s"
  obtain a1 where a1: "addLoop T False props ?s0 = Inr a1"
    using addLoop_returns by blast
  from addLoop_without_raw_transforms [OF top a1]
  have a1r: "registry a1 = registry ?s0 ++ ?Wt"
    and a1p: "map_of (prev a1) = map_of (prev ?s0) ++ ?Vt"
    and a1m: "motionValues a1 = motionValues ?s0"
    and a1s: "staticStyle a1 = staticStyle ?s0"
    by simp_all
  have kept: "declaresValue props k" if "map_of (prev ?s0) k \<noteq> None" for k
  proof -
    from removeLoop_leaves_declared [OF that]
    have "map_of (prev s) k \<noteq> None" and "k \<in> set (map fst (prev s)) \<longrightarrow> declaresValue props k"
      by simp_all
    then show ?thesis by (simp add: keys_iff)
  qed
  have topd: "declaresValue props k" if "?Wt k \<noteq> None" for k
    using registered_declared [OF dtop that] by (simp add: declaresValue_def)
  show ?thesis
  proof (cases "truthy (getProp props ''style'')")
    case False
    with first a1 have s1: "s1 = a1" by (simp add: useMotionValues_def addMotionValues_def)
    have "declaresValue props k" if "k \<in> set (map fst (prev a1))" for k
    proof -
      from that have "map_of (prev a1) k \<noteq> None" by (simp add: keys_iff)
      then have "?Wt k \<noteq> None \<or> map_of (prev ?s0) k \<noteq> None"
        by (simp add: a1p map_add_def split: option.splits)
      then show ?thesis using topd kept by blast
    qed
    then have rem: "removeLoop props (map fst (prev a1)) a1 = a1"
      by (intro removeLoop_nothing) blast
    obtain b1 where b1: "addLoop T False props a1 = Inr b1"
      using addLoop_returns by blast
    from addLoop_without_raw_transforms [OF top b1]
    have "registry b1 = registry a1 ++ ?Wt"
      and "map_of (prev b1) = map_of (prev a1) ++ ?Vt"
      and "motionValues b1 = motionValues a1"
      and "staticStyle b1 = staticStyle a1"
      by simp_all
    then have "registry b1 = registry a1" and "map_of (prev b1) = map_of (prev a1)"
      and "motionValues b1 = motionValues a1" and "staticStyle b1 = staticStyle a1"
      by (simp_all only: a1r a1p absorb_write)
    moreover from b1 rem False have "useMotionValues T props a1 = Inr b1"
      by (simp add: useMotionValues_def addMotionValues_def)
    moreover from False have "?style = []" by (cases "getProp props ''style''") simp_all
    then have "calls b1 = calls a1 @ map (\<lambda>(k, r). AddValue k r) (registered props @ registered ?style)"
      using addLoop_calls_without_raw_transforms [OF top b1] by (simp add: registered_Nil)
    ultimately show ?thesis unfolding s1 by (intro exI [of _ b1] conjI)
  next
    case True
    with first a1 have s1: "addLoop T True ?style (a1\<lparr> staticStyle := [] \<rparr>) = Inr s1"
      by (simp add: useMotionValues_def addMotionValues_def)
    from addLoop_without_raw_transforms [OF sty s1]
    have s1r: "registry s1 = (registry ?s0 ++ ?Wt) ++ ?Ws"
      and s1p: "map_of (prev s1) = (map_of (prev ?s0) ++ ?Vt) ++ ?Vs"
      and s1m: "motionValues s1 = motionValues a1"
      by (simp_all add: a1r a1p del: map_add_assoc)
    have styd: "declaresValue props k" if "?Ws k \<noteq> None" for k
      using registered_declared [OF dsty that] True by (simp add: declaresValue_def)
    have "declaresValue props k" if "k \<in> set (map fst (prev s1))" for k
    proof -
      from that have "map_of (prev s1) k \<noteq> None" by (simp add: keys_iff)
      then have "?Ws k \<noteq> None \<or> ?Wt k \<noteq> None \<or> map_of (prev ?s0) k \<noteq> None"
        by (simp add: s1p map_add_def split: option.splits)
      then show ?thesis using styd topd kept by blast
    qed
    then have rem: "removeLoop props (map fst (prev s1)) s1 = s1"
      by (intro removeLoop_nothing) blast
    obtain b1 where b1: "addLoop T False props s1 = Inr b1"
      using addLoop_returns by blast
    from addLoop_without_raw_transforms [OF top b1]
    have b1r: "registry b1 = registry s1 ++ ?Wt"
      and b1p: "map_of (prev b1) = map_of (prev s1) ++ ?Vt"
      and b1m: "motionValues b1 = motionValues s1"
      by simp_all
    obtain s2 where s2: "addLoop T True ?style (b1\<lparr> staticStyle := [] \<rparr>) = Inr s2"
      using addLoop_returns by blast
    from addLoop_without_raw_transforms [OF sty s2]
    have "registry s2 = ((((registry ?s0 ++ ?Wt) ++ ?Ws) ++ ?Wt) ++ ?Ws)"
      and "map_of (prev s2) = ((((map_of (prev ?s0) ++ ?Vt) ++ ?Vs) ++ ?Vt) ++ ?Vs)"
      and "motionValues s2 = motionValues s1"
      by (simp_all add: b1r b1p b1m s1r s1p del: map_add_assoc)
    then have "registry s2 = registry s1" and "map_of (prev s2) = map_of (prev s1)"
      and "motionValues s2 = motionValues s1"
      by (simp_all only: s1r s1p absorb_writes)
    moreover have "staticStyle s2 = staticStyle s1"
      using sty s2 s1 by (rule addLoop_staticStyle_determined) simp
    moreover from b1 s2 rem True have "useMotionValues T props s1 = Inr s2"
      by (simp add: useMotionValues_def addMotionValues_def)
    moreover have "calls s2 = calls s1 @ map (\<lambda>(k, r). AddValue k r) (registered props @ registered ?style)"
      using addLoop_calls_without_raw_transforms [OF top b1]
        addLoop_calls_without_raw_transforms [OF sty s2] by simp
    ultimately show ?thesis by (intro exI [of _ s2] conjI)
  qed
qed

theorem second_evaluation_changes_nothing_witness:
  "\<exists>s2. useMotionValues exampleTables
          [(''x'', JMotionValue 0),
           (''style'', JObj 0 [(''opacity'', JMotionValue 1), (''color'', JStr ''red'')])]
          \<lparr> registry = [''x'' \<mapsto> 0, ''opacity'' \<mapsto> 1],
            staticStyle = [(''color'', JStr ''red'')],
            calls = [AddValue ''x'' 0, AddValue ''opacity'' 1],
            prev = [(''x'', JMotionValue 0), (''opacity'', JMotionValue 1)],
            motionValues = [JNum 10, JNum 1] \<rparr> = Inr s2 \<and>
        registry s2 = [''x'' \<mapsto> 0, ''opacity'' \<mapsto> 1] \<and>
        map_of (prev s2) = map_of [(''x'', JMotionValue 0), (''opacity'', JMotionValue 1)] \<and>
        staticStyle s2 = [(''color'', JStr ''red'')] \<and>
        motionValues s2 = [JNum 10, JNum 1] \<and>
        calls s2 = [AddValue ''x'' 0, AddValue ''opacity'' 1, AddValue ''x'' 0, AddValue ''opacity'' 1]"
proof -
  let ?props = "[(''x'', JMotionValue 0),
           (''style'', JObj 0 [(''opacity'', JMotionValue 1), (''color'', JStr ''red'')])]"
  let ?s1 = "\<lparr> registry = [''x'' \<mapsto> 0, ''opacity'' \<mapsto> 1],
            staticStyle = [(''color'', JStr ''red'')],
            calls = [AddValue ''x'' 0, AddValue ''opacity'' 1],
            prev = [(''x'', JMotionValue 0), (''opacity'', JMotionValue 1)],
            motionValues = [JNum 10, JNum 1] \<rparr>"
  have top: "rawTransformFree exampleTables ?props"
    by (simp add: rawTransformFree_def exampleTables_def)
  have sty: "rawTransformFree exampleTables (ownProps (getProp ?props ''style''))"
    by (simp add: rawTransformFree_def exampleTables_def getProp_def)
  have dtop: "distinct (map fst ?props)" by simp
  have dsty: "distinct (map fst (ownProps (getProp ?props ''style'')))"
    by (simp add: getProp_def)
  have first: "useMotionValues exampleTables ?props (freshState\<lparr> motionValues := [JNum 10, JNum 1] \<rparr>) = Inr ?s1"
    by (simp add: reconciler_eval_defs)
  from second_evaluation_changes_nothing [OF top sty dtop dsty first] show ?thesis
    by (simp add: registered_def map_filter_simps reservedNames_def getProp_def)
qed

subsection \<open>Raw transform values across evaluations\<close>

text \<open>
  C1. The component declares \<open>rotate: 45\<close>, then \<open>rotate: 90\<close>. The first evaluation
  registers a new binding (reference 0) holding 45. The second one, started with an empty
  list of calls, removes \<open>rotate\<close> in the removal loop, since the prop is not a motion
  value, and registers another new binding (reference 1) holding 90: no \<open>set\<close> is called,
  and the first binding still holds 45.
\<close>

theorem rotate_binding_replaced_not_updated:
  "useMotionValues exampleTables [(''rotate'', JNum 45)] freshState =
     Inr \<lparr> registry = [''rotate'' \<mapsto> 0], staticStyle = [],
           calls = [AddValue ''rotate'' 0],
           prev = [(''rotate'', JNum 45)], motionValues = [JNum 45] \<rparr> \<and>
   useMotionValues exampleTables [(''rotate'', JNum 90)]
     \<lparr> registry = [''rotate'' \<mapsto> 0], staticStyle = [], calls = [],
       prev = [(''rotate'', JNum 45)], motionValues = [JNum 45] \<rparr> =
     Inr \<lparr> registry = [''rotate'' \<mapsto> 1], staticStyle = [],
           calls = [RemoveValue ''rotate'', AddValue ''rotate'' 1],
           prev = [(''rotate'', JNum 90)], motionValues = [JNum 45, JNum 90] \<rparr>"
  by (simp add: useMotionValues_def addMotionValues_def addMotionValue_def addValue_def
        removeValue_def hasValue_def getValue_def motionValue_def setMotionValue_def
        setPrev_def deletePrev_def getProp_def strictEq_def reservedNames_def exampleTables_def
        freshState_def)

section \<open>Properties of the context propagator\<close>

subsection \<open>The factory throws\<close>

lemma newContext_throws:
  "newContext parentContext c presenceContext props hm ld lds lp = Inl ReferenceError"
  by (simp add: newContext_def valuesIdentifier_def)

text \<open>Every evaluation that runs the factory throws, the first one of a component among them.\<close>

lemma useMotionContext_throws:
  assumes "recomputes parentContext isStatic props presenceContext h"
  shows "useMotionContext parentContext c isStatic props presenceContext h = Inl ReferenceError"
  using assms
  by (auto simp: useMotionContext_def recomputes_def newContext_throws Let_def
           split: prod.splits option.splits)

lemma first_evaluation_throws:
  "useMotionContext parentContext c isStatic props presenceContext unmounted = Inl ReferenceError"
  by (rule useMotionContext_throws) (simp add: recomputes_def unmounted_def)

text \<open>An evaluation returns only when it finds a kept object for unchanged dependencies.\<close>

lemma useMotionContext_returns_iff:
  "(\<exists>e. useMotionContext parentContext c isStatic props presenceContext h = Inr e) \<longleftrightarrow>
     \<not> recomputes parentContext isStatic props presenceContext h"
proof (cases "recomputes parentContext isStatic props presenceContext h")
  case True
  then show ?thesis by (simp add: useMotionContext_throws)
next
  case False
  then show ?thesis
    by (auto simp: useMotionContext_def recomputes_def Let_def split: prod.splits option.splits)
qed

lemmas context_eval_defs =
  useMotionContext_def createOnce_def memoDeps_def initialDependency_def animateDependency_def
  targetInitial_def targetAnimate_def initialState_def effectiveInitial_def
  shouldPropagateControls_def layoutIdValue_def presenceIdOf_def newContext_def
  valuesIdentifier_def depsEqual_def objectIs_def unmounted_def MotionContext_def Let_def

subsection \<open>Layout depth\<close>

text \<open>
  C4. A component that declares \<open>layoutId\<close> is evaluated for the first time under a
  parent of depth 0. The factory throws at \<open>values\<close>, before the \<open>layoutDepth\<close> of lines 143
  to 147 is computed: the evaluation returns no context, where the claim gives the child
  the depth 1.
\<close>

theorem layoutDepth_never_computed:
  "useMotionContext (MotionContext\<lparr> layoutDepth := 0 \<rparr>) 0 False
     \<lparr> initialProp = JUndefined, animateProp = JUndefined, variantsProp = None,
       whileTapProp = JUndefined, whileHoverProp = JUndefined, layoutIdProp = Some ''card'' \<rparr>
     None unmounted = Inl ReferenceError"
  by (simp add: context_eval_defs)

subsection \<open>Identity of the context object\<close>

text \<open>
  C5. A component is evaluated, and evaluated again with another \<open>initial\<close> and the same
  six dependencies. The first evaluation throws and keeps no object, so the second one
  starts as the first did and throws too: no context is returned, where the claim gives
  the second evaluation the object of the first.
\<close>

theorem no_prior_context_object:
  "useMotionContext MotionContext 0 False
     \<lparr> initialProp = JStr ''hidden'', animateProp = JStr ''open'', variantsProp = None,
       whileTapProp = JUndefined, whileHoverProp = JUndefined, layoutIdProp = None \<rparr>
     None unmounted = Inl ReferenceError \<and>
   depsEqual
     (memoDeps MotionContext False None
        \<lparr> initialProp = JStr ''shown'', animateProp = JStr ''open'', variantsProp = None,
          whileTapProp = JUndefined, whileHoverProp = JUndefined, layoutIdProp = None \<rparr>)
     (memoDeps MotionContext False None
        \<lparr> initialProp = JStr ''hidden'', animateProp = JStr ''open'', variantsProp = None,
          whileTapProp = JUndefined, whileHoverProp = JUndefined, layoutIdProp = None \<rparr>) \<and>
   useMotionContext MotionContext 0 False
     \<lparr> initialProp = JStr ''shown'', animateProp = JStr ''open'', variantsProp = None,
       whileTapProp = JUndefined, whileHoverProp = JUndefined, layoutIdProp = None \<rparr>
     None unmounted = Inl ReferenceError"
  by (simp add: context_eval_defs)

subsection \<open>Propagation roots\<close>

text \<open>
  A component propagates its controls exactly when it declares \<open>variants\<close>, or \<open>animate\<close>,
  \<open>whileTap\<close> or \<open>whileHover\<close> is a string or an array, or \<open>animate\<close> is an
  animation-controls handle.
\<close>

lemma isVariantLabel_iff: "isVariantLabel v \<longleftrightarrow> (\<exists>s. v = JStr s) \<or> (\<exists>r. v = JArr r)"
  by (cases v) simp_all

lemma isAnimationControls_iff: "isAnimationControls v \<longleftrightarrow> (\<exists>r. v = JControls r)"
  by (cases v) simp_all

lemma shouldPropagateControls_iff:
  "shouldPropagateControls props \<longleftrightarrow>
     variantsProp props \<noteq> None \<or>
     (\<exists>s. animateProp props = JStr s) \<or> (\<exists>r. animateProp props = JArr r) \<or>
     (\<exists>s. whileTapProp props = JStr s) \<or> (\<exists>r. whileTapProp props = JArr r) \<or>
     (\<exists>s. whileHoverProp props = JStr s) \<or> (\<exists>r. whileHoverProp props = JArr r) \<or>
     (\<exists>r. animateProp props = JControls r)"
  unfolding shouldPropagateControls_def isVariantLabel_iff isAnimationControls_iff
  by (simp only: disj_assoc)

text \<open>
  C6. A component that declares \<open>variants\<close> is a propagation root, and one that declares
  only a literal \<open>animate\<close> target is not. The first evaluation of either throws at
  \<open>values\<close>: no context is derived, where the claim gives the context the component's own
  controls 3 in the first case and the parent's controls 7 in the second.
\<close>

theorem propagation_root_context_never_built:
  "useMotionContext (MotionContext\<lparr> controls := Some 7 \<rparr>) 3 False
     \<lparr> initialProp = JUndefined, animateProp = JObj 4 [], variantsProp = Some 5,
       whileTapProp = JUndefined, whileHoverProp = JUndefined, layoutIdProp = None \<rparr>
     None unmounted = Inl ReferenceError \<and>
   useMotionContext (MotionContext\<lparr> controls := Some 7 \<rparr>) 3 False
     \<lparr> initialProp = JUndefined, animateProp = JObj 4 [], variantsProp = None,
       whileTapProp = JUndefined, whileHoverProp = JUndefined, layoutIdProp = None \<rparr>
     None unmounted = Inl ReferenceError"
  by (simp add: context_eval_defs)

subsection \<open>The resolved initial state\<close>

text \<open>
  C7. The \<open>initialState\<close> the function computes is the one the specification describes:
  a defined override of the presence scope replaces the prop; a literal false gives the
  \<open>animate\<close> value unless that is a controls handle; a value that is not a boolean is
  taken as it is; otherwise the state is undefined.
\<close>

theorem resolved_initial_state:
  "initialState presenceContext props =
     resolvedInitialSpec
       (case presenceContext of
          None \<Rightarrow> None
        | Some p \<Rightarrow> if presence_initial p = JUndefined then None else Some (presence_initial p))
       (initialProp props) (animateProp props)"
proof -
  have direct: "resolvedInitialSpec None i a =
      (if i = JBool False \<and> \<not> isAnimationControls a then a
       else if \<not> isBoolean i then i else JUndefined)" for i a
    by (cases i; cases a) (simp_all add: resolvedInitialSpec_def split: bool.splits)
  have override: "resolvedInitialSpec (Some i) j a = resolvedInitialSpec None i a" for i j a
    by (simp add: resolvedInitialSpec_def)
  show ?thesis
    by (cases presenceContext)
       (simp_all add: initialState_def effectiveInitial_def Let_def override direct)
qed

theorem resolved_initial_state_witness:
  "initialState (Some \<lparr> presence_id = JNum 1, presence_initial = JBool False \<rparr>)
     \<lparr> initialProp = JStr ''hidden'', animateProp = JStr ''visible'', variantsProp = None,
       whileTapProp = JUndefined, whileHoverProp = JUndefined, layoutIdProp = None \<rparr>
     = JStr ''visible'' \<and>
   initialState None
     \<lparr> initialProp = JBool False, animateProp = JControls 2, variantsProp = None,
       whileTapProp = JUndefined, whileHoverProp = JUndefined, layoutIdProp = None \<rparr>
     = JUndefined \<and>
   initialState None
     \<lparr> initialProp = JStr ''hidden'', animateProp = JStr ''visible'', variantsProp = None,
       whileTapProp = JUndefined, whileHoverProp = JUndefined, layoutIdProp = None \<rparr>
     = JStr ''hidden''"
  using resolved_initial_state [of "Some \<lparr> presence_id = JNum 1, presence_initial = JBool False \<rparr>"
      "\<lparr> initialProp = JStr ''hidden'', animateProp = JStr ''visible'', variantsProp = None,
       whileTapProp = JUndefined, whileHoverProp = JUndefined, layoutIdProp = None \<rparr>"]
    resolved_initial_state [of None
      "\<lparr> initialProp = JBool False, animateProp = JControls 2, variantsProp = None,
       whileTapProp = JUndefined, whileHoverProp = JUndefined, layoutIdProp = None \<rparr>"]
    resolved_initial_state [of None
      "\<lparr> initialProp = JStr ''hidden'', animateProp = JStr ''visible'', variantsProp = None,
       whileTapProp = JUndefined, whileHoverProp = JUndefined, layoutIdProp = None \<rparr>"]
  by (simp add: resolvedInitialSpec_def)

subsection \<open>A propagation decision to keep\<close>

text \<open>
  C10. A component is evaluated without \<open>variants\<close> and then with \<open>variants\<close> and a
  \<open>whileTap\<close> label, the six dependencies being equal. The first evaluation throws and
  keeps no object, and so does the second: no context is returned, where the claim gives
  the second evaluation the object of the first with its \<open>controls\<close>.
\<close>

theorem no_context_to_keep_across_root_flip:
  "useMotionContext (MotionContext\<lparr> controls := Some 7 \<rparr>) 3 False
     \<lparr> initialProp = JUndefined, animateProp = JUndefined, variantsProp = None,
       whileTapProp = JUndefined, whileHoverProp = JUndefined, layoutIdProp = None \<rparr>
     None unmounted = Inl ReferenceError \<and>
   depsEqual
     (memoDeps (MotionContext\<lparr> controls := Some 7 \<rparr>) False None
        \<lparr> initialProp = JUndefined, animateProp = JUndefined, variantsProp = Some 5,
          whileTapProp = JStr ''pressed'', whileHoverProp = JUndefined, layoutIdProp = None \<rparr>)
     (memoDeps (MotionContext\<lparr> controls := Some 7 \<rparr>) False None
        \<lparr> initialProp = JUndefined, animateProp = JUndefined, variantsProp = None,
          whileTapProp = JUndefined, whileHoverProp = JUndefined, layoutIdProp = None \<rparr>) \<and>
   useMotionContext (MotionContext\<lparr> controls := Some 7 \<rparr>) 3 False
     \<lparr> initialProp = JUndefined, animateProp = JUndefined, variantsProp = Some 5,
       whileTapProp = JStr ''pressed'', whileHoverProp = JUndefined, layoutIdProp = None \<rparr>
     None unmounted = Inl ReferenceError"
  by (simp add: context_eval_defs)

end
